theory Spec2Isabelle
  imports Complex_Main
begin

section \<open>The archive download loop of \<open>download_subreddit_data.py\<close>\<close>

text \<open>
  The development embeds \<open>src/reddit_scraper/download_subreddit_data.py\<close>: the classes
  \<open>DownloadStats\<close>, \<open>ArchiveStream\<close> and \<open>CombinedArchiveStream\<close> and the function
  \<open>validate_name\<close>.

  Conventions of the embedding.
  \<^item> Python integers are \<open>int\<close>; the cursor \<open>current_date\<close> is a number of milliseconds.
  \<^item> What the network answers is an input: a stream run takes the list of the responses
    that \<open>requests.get\<close> will return, in order, and hands back the ones it did not use. A
    run that is still looping when the list is used up has no result (\<open>None\<close>).
  \<^item> The world outside the objects is a record: the files by path, the arguments of the
    calls of \<open>time.sleep\<close> in order, and the GET requests issued in order.
  \<^item> Every exception is a value of \<open>error\<close>. The \<open>except Exception\<close> clause of
    \<open>_run\<close> is the function \<open>except_branch\<close>.
  \<^item> The responses are typed after the API's schema and the annotation
    \<open>List[Dict]\<close>: a page is a list of items, an item is a dictionary whose
    \<open>created_utc\<close>, when present, is an integer number of seconds.
  \<^item> \<open>json.dumps\<close> and \<open>datetime.datetime.fromtimestamp\<close> are library code: they are
    parameters, collected in the record \<open>pylib\<close>. \<open>fromtimestamp_ok\<close> tells whether the
    conversion of a number of milliseconds (divided by 1000) returns; otherwise it raises.
  \<^item> Not modelled: the text printed, the wall-clock fields \<open>start_time\<close> and
    \<open>running_time\<close>, \<open>KeyboardInterrupt\<close> (so \<open>is_paused\<close> is only ever set to
    \<open>False\<close>), and failures of the file system (\<open>open\<close> and \<open>write\<close> succeed).
  \<^item> The constructor's default \<open>append=False\<close> is an explicit argument of
    \<open>ArchiveStream_init\<close>.
  \<^item> Renamed, because a record field is a constant: \<open>DownloadStats.current_date\<close> is
    \<open>stats_current_date\<close>, \<open>ArchiveStream.append\<close> is \<open>append_mode\<close>; the methods
    \<open>_run\<close> and \<open>_fetch_data\<close> lose their underscore.
\<close>

subsection \<open>Data\<close>

datatype DownloadType = SUBREDDIT | USER

fun DownloadType_value :: "DownloadType \<Rightarrow> string" where
  "DownloadType_value SUBREDDIT = ''subreddit''"
| "DownloadType_value USER = ''author''"

record DownloadStats =
  total_items :: int
  stats_current_date :: "int option"
  repeated_error_count :: int
  is_paused :: bool
  is_done :: bool
  has_error :: bool

definition DownloadStats_init :: DownloadStats where
  "DownloadStats_init =
     \<lparr>total_items = 0, stats_current_date = None, repeated_error_count = 0,
      is_paused = False, is_done = False, has_error = False\<rparr>"

record ArchiveStream =
  url :: string
  start_date :: int
  current_date :: int
  output_file :: string
  item_type :: string
  append_mode :: bool
  stats :: DownloadStats

definition ArchiveStream_init :: "string \<Rightarrow> int \<Rightarrow> string \<Rightarrow> string \<Rightarrow> bool \<Rightarrow> ArchiveStream" where
  "ArchiveStream_init u sd out ty app =
     \<lparr>url = u, start_date = sd, current_date = sd, output_file = out, item_type = ty,
      append_mode = app, stats = DownloadStats_init\<rparr>"

record item =
  created_utc :: "int option"
  other_fields :: "(string \<times> string) list"

record json_body =
  error_field :: "string option"
  data_field :: "item list option"

record response =
  status_code :: int
  resp_text :: string
  json :: "json_body option"

datatype error =
  StatusError int string
  | ApiError string
  | JSONDecodeError
  | ValueError string
  | NotFound string
  | IndexError

datatype request =
  GetPage string int
  | GetMin DownloadType string
  | GetInfo DownloadType string

record world =
  files :: "string \<rightharpoonup> string"
  slept :: "int list"
  requests :: "request list"

record pylib =
  dumps :: "item \<Rightarrow> string"
  fromtimestamp_ok :: "int \<Rightarrow> bool"

subsection \<open>\<open>ArchiveStream._fetch_data\<close>\<close>

text \<open>
  One GET for the page after the cursor. \<open>GetPage u c\<close> stands for the URL
  \<open>u&limit=auto&sort=asc&after=c&meta-app=download-tool-cli\<close>. A body that is not JSON
  makes \<open>response.json()\<close> raise; \<open>data.get("error")\<close> is tested for truth, so an empty
  string does not raise; \<open>data.get("data", [])\<close> is the empty list when the key is absent.
  \<open>response_result\<close> is what the method does with the response once it has it (lines
  144 to 153); \<open>fetch_data\<close> adds the request to the world.
\<close>

definition response_result :: "response \<Rightarrow> error + item list" where
  "response_result resp =
     (if status_code resp \<noteq> 200 then Inl (StatusError (status_code resp) (resp_text resp))
      else (case json resp of
              None \<Rightarrow> Inl JSONDecodeError
            | Some d \<Rightarrow>
                (case error_field d of
                   Some (c # cs) \<Rightarrow> Inl (ApiError (c # cs))
                 | _ \<Rightarrow> Inr (case data_field d of None \<Rightarrow> [] | Some xs \<Rightarrow> xs))))"

definition fetch_data :: "ArchiveStream \<Rightarrow> response \<Rightarrow> world \<Rightarrow> (error + item list) \<times> world" where
  "fetch_data self resp w =
     (response_result resp,
      w\<lparr>requests := requests w @ [GetPage (url self) (current_date self)]\<rparr>)"

subsection \<open>\<open>ArchiveStream._run\<close>\<close>

datatype flow = Continue | Break

text \<open>
  The \<open>except Exception\<close> clause: set the flag, count the failure, then either mark the
  stream done and leave the loop, or sleep as many seconds as the counter says.
\<close>

definition except_branch :: "ArchiveStream \<Rightarrow> world \<Rightarrow> ArchiveStream \<times> world \<times> flow" where
  "except_branch self w =
     (let st = (stats self)\<lparr>has_error := True\<rparr>;
          st1 = st\<lparr>repeated_error_count := repeated_error_count st + 1\<rparr>
      in if (1 / 2) * of_int ((repeated_error_count st1)\<^sup>2) > (60 :: rat)
         then (self\<lparr>stats := st1\<lparr>is_done := True\<rparr>\<rparr>, w, Break)
         else (self\<lparr>stats := st1\<rparr>, w\<lparr>slept := slept w @ [repeated_error_count st1]\<rparr>, Continue))"

definition derived_timestamp :: "item \<Rightarrow> int" where
  "derived_timestamp it = (case created_utc it of None \<Rightarrow> 0 | Some t \<Rightarrow> t) * 1000"

definition write_file :: "string \<Rightarrow> string \<Rightarrow> (string \<rightharpoonup> string) \<Rightarrow> (string \<rightharpoonup> string)" where
  "write_file path txt fs = fs(path \<mapsto> (case fs path of None \<Rightarrow> [] | Some c \<Rightarrow> c) @ txt)"

definition write_items :: "pylib \<Rightarrow> item list \<Rightarrow> string" where
  "write_items L data = concat (map (\<lambda>it. dumps L it @ [CHR 0x0A]) data)"

text \<open>The body of the \<open>while\<close> loop, for the response that the fetch receives.\<close>

definition loop_body :: "pylib \<Rightarrow> response \<Rightarrow> ArchiveStream \<Rightarrow> world \<Rightarrow> ArchiveStream \<times> world \<times> flow" where
  "loop_body L resp self w =
     (case fetch_data self resp w of
        (Inl e, w1) \<Rightarrow> except_branch self w1
      | (Inr data, w1) \<Rightarrow>
          if data = [] then (self\<lparr>stats := (stats self)\<lparr>is_done := True\<rparr>\<rparr>, w1, Break)
          else
            let self1 = self\<lparr>stats := (stats self)\<lparr>total_items := total_items (stats self) + int (length data)\<rparr>\<rparr>;
                last_item = last data;
                new_date0 = derived_timestamp last_item;
                new_date = (if new_date0 = current_date self1 then new_date0 + 1000 else new_date0);
                self2 = self1\<lparr>current_date := new_date\<rparr>
            in if \<not> fromtimestamp_ok L new_date then except_branch self2 w1
               else
                 let self3 = self2\<lparr>stats := (stats self2)\<lparr>stats_current_date := Some new_date\<rparr>\<rparr>;
                     w2 = w1\<lparr>files := write_file (output_file self3) (write_items L data) (files w1)\<rparr>;
                     st4 = (stats self3)\<lparr>repeated_error_count := 0\<rparr>;
                     st5 = (if has_error st4 then st4\<lparr>has_error := False\<rparr> else st4)
                 in (self3\<lparr>stats := st5\<rparr>, w2, Continue))"

text \<open>
  The loop over the responses still to come. It stops when the stream is paused or done,
  at a \<open>break\<close>, or when the responses are used up.
\<close>

fun run_loop :: "pylib \<Rightarrow> response list \<Rightarrow> ArchiveStream \<Rightarrow> world \<Rightarrow> ArchiveStream \<times> world \<times> response list" where
  "run_loop L [] self w = (self, w, [])"
| "run_loop L (r # rs) self w =
     (if is_paused (stats self) \<or> is_done (stats self) then (self, w, r # rs)
      else
        (case loop_body L r self w of
           (self', w', Break) \<Rightarrow> (self', w', rs)
         | (self', w', Continue) \<Rightarrow> run_loop L rs self' w'))"

definition run :: "pylib \<Rightarrow> response list \<Rightarrow> ArchiveStream \<Rightarrow> world \<Rightarrow> (ArchiveStream \<times> world \<times> response list) option" where
  "run L rs self w =
     (case run_loop L rs self w of
        (self', w', rest) \<Rightarrow>
          if is_paused (stats self') \<or> is_done (stats self') then Some (self', w', rest) else None)"

subsection \<open>\<open>ArchiveStream.start\<close>\<close>

text \<open>\<open>open(path, "a")\<close> keeps what the file holds, \<open>open(path, "w")\<close> empties it.\<close>

definition open_file :: "string \<Rightarrow> bool \<Rightarrow> (string \<rightharpoonup> string) \<Rightarrow> (string \<rightharpoonup> string)" where
  "open_file path app fs =
     (if app then (case fs path of None \<Rightarrow> fs(path \<mapsto> []) | Some c \<Rightarrow> fs)
      else fs(path \<mapsto> []))"

definition start :: "pylib \<Rightarrow> response list \<Rightarrow> ArchiveStream \<Rightarrow> world \<Rightarrow> (ArchiveStream \<times> world \<times> response list) option" where
  "start L rs self w =
     (let self1 = self\<lparr>stats := (stats self)\<lparr>is_paused := False\<rparr>\<rparr>;
          w1 = w\<lparr>files := open_file (output_file self1) (append_mode self1) (files w)\<rparr>
      in run L rs self1 w1)"

subsection \<open>\<open>CombinedArchiveStream\<close>\<close>

record CombinedArchiveStream =
  posts_stream :: "ArchiveStream option"
  comments_stream :: "ArchiveStream option"

definition start_if_present :: "pylib \<Rightarrow> response list \<Rightarrow> ArchiveStream option \<Rightarrow> world \<Rightarrow> (ArchiveStream option \<times> world \<times> response list) option" where
  "start_if_present L rs so w =
     (case so of
        None \<Rightarrow> Some (None, w, rs)
      | Some s \<Rightarrow>
          (case start L rs s w of
             None \<Rightarrow> None
           | Some (s', w', rest) \<Rightarrow> Some (Some s', w', rest)))"

definition combined_start :: "pylib \<Rightarrow> response list \<Rightarrow> CombinedArchiveStream \<Rightarrow> world \<Rightarrow> (CombinedArchiveStream \<times> world \<times> response list) option" where
  "combined_start L rs c w =
     (case start_if_present L rs (posts_stream c) w of
        None \<Rightarrow> None
      | Some (p', w1, rs1) \<Rightarrow>
          (case start_if_present L rs1 (comments_stream c) w1 of
             None \<Rightarrow> None
           | Some (c', w2, rs2) \<Rightarrow> Some (\<lparr>posts_stream = p', comments_stream = c'\<rparr>, w2, rs2)))"

subsection \<open>\<open>validate_name\<close>\<close>

text \<open>
  The two answers of the API are arguments: \<open>min_resp\<close> to the request for the earliest
  date, \<open>info_resp\<close> to the search request. \<open>iso_to_ms\<close> is the library's conversion of
  the ISO date to milliseconds (\<open>None\<close> when \<open>fromisoformat\<close> raises). An info record is
  a dictionary, here an association list; \<open>info_data.get("data", [{}])[0]\<close> raises
  \<open>IndexError\<close> on an empty list.
\<close>

record min_response =
  min_status_code :: int
  min_error :: "string option"
  min_data :: "string option"

record info_response =
  info_status_code :: int
  info_data :: "(string \<times> string) list list option"

definition validate_name ::
  "(string \<Rightarrow> int option) \<Rightarrow> min_response \<Rightarrow> info_response \<Rightarrow> string \<Rightarrow> DownloadType \<Rightarrow> world
     \<Rightarrow> (error + int \<times> (string \<times> string) list) \<times> world" where
  "validate_name iso_to_ms min_resp info_resp name download_type w =
     (if length name < 2 then (Inl (ValueError ''Name must be at least 2 characters long''), w)
      else
        let w1 = w\<lparr>requests := requests w @ [GetMin download_type name]\<rparr>
        in if min_status_code min_resp \<noteq> 200
           then (Inl (StatusError (min_status_code min_resp) []), w1)
           else
             (case min_error min_resp of
                Some (c # cs) \<Rightarrow> (Inl (ApiError (c # cs)), w1)
              | _ \<Rightarrow>
                (case min_data min_resp of
                   None \<Rightarrow> (Inl (NotFound (DownloadType_value download_type)), w1)
                 | Some iso_date \<Rightarrow>
                     let w2 = w1\<lparr>requests := requests w1 @ [GetInfo download_type name]\<rparr>
                     in if info_status_code info_resp \<noteq> 200
                        then (Inl (StatusError (info_status_code info_resp) []), w2)
                        else
                          (case (case info_data info_resp of None \<Rightarrow> [[]] | Some xs \<Rightarrow> xs) of
                             [] \<Rightarrow> (Inl IndexError, w2)
                           | info # _ \<Rightarrow>
                               (case iso_to_ms iso_date of
                                  None \<Rightarrow> (Inl (ValueError iso_date), w2)
                                | Some date_timestamp \<Rightarrow> (Inr (date_timestamp, info), w2))))))"

section \<open>Definitions used to state the properties\<close>

text \<open>
  \<open>next_cursor\<close> is the value that lines 101 to 105 assign to \<open>self.current_date\<close>.
  \<open>page_of\<close> is the page a response delivers: what a successful fetch returns, and no
  item when the fetch raises. \<open>conversions_return\<close> follows the loop and says that the
  date conversion of line 106 returns in every iteration the loop runs on a page that is
  not empty: it is about the value the line converts, for the responses the loop uses.
  \<open>read_lines\<close> reads a file's text back as its lines. \<open>requests_to\<close> says that
  all requests of a list are page requests to one URL. \<open>prepend_text\<close> puts a text in
  front of what a file holds.
\<close>

definition next_cursor :: "int \<Rightarrow> item list \<Rightarrow> int" where
  "next_cursor cur data =
     (if derived_timestamp (last data) = cur then derived_timestamp (last data) + 1000
      else derived_timestamp (last data))"

definition page_of :: "response \<Rightarrow> item list" where
  "page_of r = (case response_result r of Inl e \<Rightarrow> [] | Inr data \<Rightarrow> data)"

fun conversions_return :: "pylib \<Rightarrow> response list \<Rightarrow> ArchiveStream \<Rightarrow> world \<Rightarrow> bool" where
  "conversions_return L [] self w = True"
| "conversions_return L (r # rs) self w =
     (if is_paused (stats self) \<or> is_done (stats self) then True
      else (page_of r = [] \<or> fromtimestamp_ok L (next_cursor (current_date self) (page_of r))) \<and>
           (case loop_body L r self w of
              (self', w', Break) \<Rightarrow> True
            | (self', w', Continue) \<Rightarrow> conversions_return L rs self' w'))"

fun split_lines :: "string \<Rightarrow> string \<Rightarrow> string list" where
  "split_lines acc [] = (if acc = [] then [] else [acc])"
| "split_lines acc (c # cs) =
     (if c = CHR 0x0A then acc # split_lines [] cs else split_lines (acc @ [c]) cs)"

definition read_lines :: "string \<Rightarrow> string list" where
  "read_lines txt = split_lines [] txt"

fun is_page_request_to :: "string \<Rightarrow> request \<Rightarrow> bool" where
  "is_page_request_to u (GetPage v cur) = (v = u)"
| "is_page_request_to u q = False"

definition requests_to :: "string \<Rightarrow> request list \<Rightarrow> bool" where
  "requests_to u qs = list_all (is_page_request_to u) qs"

definition file_text :: "world \<Rightarrow> string \<Rightarrow> string" where
  "file_text w p = (case files w p of None \<Rightarrow> [] | Some c \<Rightarrow> c)"

definition prepend_text :: "string \<Rightarrow> string \<Rightarrow> world \<Rightarrow> world" where
  "prepend_text p x w = w\<lparr>files := (files w)(p \<mapsto> x @ file_text w p)\<rparr>"

subsection \<open>Example inputs\<close>

text \<open>
  A toy serializer and the range of \<open>datetime\<close> (years 1 to 9999, in milliseconds since
  the epoch) stand for the library in the examples; \<open>10^18\<close> seconds is far outside it.
\<close>

definition example_dumps :: "item \<Rightarrow> string" where
  "example_dumps it = concat (map (\<lambda>(k, v). k @ ''='' @ v @ '';'') (other_fields it))"

definition datetime_range_ok :: "int \<Rightarrow> bool" where
  "datetime_range_ok ms = (- 62135596800000 \<le> ms \<and> ms \<le> 253402300799999)"

definition example_lib :: pylib where
  "example_lib = \<lparr>dumps = example_dumps, fromtimestamp_ok = datetime_range_ok\<rparr>"

definition empty_world :: world where
  "empty_world = \<lparr>files = Map.empty, slept = [], requests = []\<rparr>"

definition page_response :: "item list \<Rightarrow> response" where
  "page_response xs = \<lparr>status_code = 200, resp_text = [], json = Some \<lparr>error_field = None, data_field = Some xs\<rparr>\<rparr>"

definition failed_response :: response where
  "failed_response = \<lparr>status_code = 500, resp_text = ''Internal Server Error'', json = None\<rparr>"

definition item_at :: "int \<Rightarrow> item" where
  "item_at t = \<lparr>created_utc = Some t, other_fields = [(''id'', ''x'')]\<rparr>"

definition posts_at_5000 :: ArchiveStream where
  "posts_at_5000 = ArchiveStream_init ''posts?subreddit=xy'' 5000 ''r_xy_posts.jsonl'' ''Posts'' False"

definition far_item :: item where
  "far_item = \<lparr>created_utc = Some 1000000000000000000, other_fields = [(''id'', ''far'')]\<rparr>"

definition two_pages :: "response list" where
  "two_pages = [page_response [far_item], page_response [item_at 5]]"

definition drop_then_end :: "response list" where
  "drop_then_end = [page_response [item_at 6], page_response [item_at 7, far_item], page_response []]"

definition open_world :: world where
  "open_world = \<lparr>files = [''r_xy_posts.jsonl'' \<mapsto> []], slept = [], requests = []\<rparr>"

definition three_responses :: "response list" where
  "three_responses = [page_response [item_at 6, item_at 7], failed_response, page_response [item_at 8]]"

definition old_world :: world where
  "old_world = \<lparr>files = [''r_xy_posts.jsonl'' \<mapsto> ''id=old;'' @ [CHR 0x0A]], slept = [], requests = []\<rparr>"

definition one_page_then_empty :: "response list" where
  "one_page_then_empty = [page_response [item_at 6], page_response []]"

definition comments_at_5000 :: ArchiveStream where
  "comments_at_5000 = ArchiveStream_init ''comments?subreddit=xy'' 5000 ''r_xy_comments.jsonl'' ''Comments'' False"

definition bare_response :: response where
  "bare_response = \<lparr>status_code = 200, resp_text = ''{}'', json = Some \<lparr>error_field = None, data_field = None\<rparr>\<rparr>"

definition example_iso_to_ms :: "string \<Rightarrow> int option" where
  "example_iso_to_ms d = (if d = ''1970-01-01T00:00:05Z'' then Some 5000 else None)"

definition example_min_response :: min_response where
  "example_min_response = \<lparr>min_status_code = 200, min_error = None, min_data = Some ''1970-01-01T00:00:05Z''\<rparr>"

definition example_info_response :: info_response where
  "example_info_response = \<lparr>info_status_code = 200, info_data = Some [[(''display_name'', ''x'')]]\<rparr>"

lemmas example_defs = example_dumps_def datetime_range_ok_def example_lib_def empty_world_def
  page_response_def failed_response_def item_at_def posts_at_5000_def ArchiveStream_init_def
  DownloadStats_init_def

lemmas model_defs = loop_body_def fetch_data_def response_result_def except_branch_def
  derived_timestamp_def write_file_def write_items_def run_def Let_def

section \<open>One iteration of the loop\<close>

lemma penalty_iff: "((1 / 2) * of_int (n\<^sup>2) > (60 :: rat)) = (11 \<le> \<bar>n\<bar>)"
proof -
  have "((1 / 2) * of_int (n\<^sup>2) > (60 :: rat)) = (of_int (n\<^sup>2) > (120 :: rat))"
    by simp
  also have "\<dots> = (n\<^sup>2 > 120)"
    by (metis of_int_less_iff of_int_numeral)
  also have "\<dots> = (11 \<le> \<bar>n\<bar>)"
  proof
    assume a: "120 < n\<^sup>2"
    show "11 \<le> \<bar>n\<bar>"
    proof (rule ccontr)
      assume "\<not> 11 \<le> \<bar>n\<bar>"
      then have "\<bar>n\<bar> \<le> 10" by simp
      then have "\<bar>n\<bar>\<^sup>2 \<le> 10\<^sup>2" by (intro power_mono) simp_all
      with a show False by simp
    qed
  next
    assume "11 \<le> \<bar>n\<bar>"
    then have "11\<^sup>2 \<le> \<bar>n\<bar>\<^sup>2" by (intro power_mono) simp_all
    then show "120 < n\<^sup>2" by simp
  qed
  finally show ?thesis .
qed

lemma loop_body_failure:
  "response_result r = Inl e \<Longrightarrow>
   loop_body L r self w =
     except_branch self (w\<lparr>requests := requests w @ [GetPage (url self) (current_date self)]\<rparr>)"
  by (simp add: loop_body_def fetch_data_def)

lemma loop_body_empty:
  "response_result r = Inr [] \<Longrightarrow>
   loop_body L r self w =
     (self\<lparr>stats := (stats self)\<lparr>is_done := True\<rparr>\<rparr>,
      w\<lparr>requests := requests w @ [GetPage (url self) (current_date self)]\<rparr>, Break)"
  by (simp add: loop_body_def fetch_data_def)

lemma loop_body_page:
  assumes "response_result r = Inr data" "data \<noteq> []"
  shows "loop_body L r self w =
     (let w1 = w\<lparr>requests := requests w @ [GetPage (url self) (current_date self)]\<rparr>;
          new_date = next_cursor (current_date self) data;
          st1 = (stats self)\<lparr>total_items := total_items (stats self) + int (length data)\<rparr>
      in if \<not> fromtimestamp_ok L new_date
         then except_branch (self\<lparr>stats := st1, current_date := new_date\<rparr>) w1
         else (self\<lparr>current_date := new_date,
                    stats := st1\<lparr>stats_current_date := Some new_date, repeated_error_count := 0,
                                has_error := False\<rparr>\<rparr>,
               w1\<lparr>files := write_file (output_file self) (write_items L data) (files w1)\<rparr>,
               Continue))"
  using assms
  by (simp add: loop_body_def fetch_data_def Let_def next_cursor_def)

lemma except_branch_cursor: "current_date (fst (except_branch self w)) = current_date self"
  by (simp add: except_branch_def Let_def)

lemma except_branch_retry:
  assumes "0 \<le> repeated_error_count (stats self)" "repeated_error_count (stats self) < 10"
  shows "except_branch self w =
     (self\<lparr>stats := (stats self)\<lparr>has_error := True,
         repeated_error_count := repeated_error_count (stats self) + 1\<rparr>\<rparr>,
      w\<lparr>slept := slept w @ [repeated_error_count (stats self) + 1]\<rparr>, Continue)"
  using assms unfolding except_branch_def Let_def by (subst penalty_iff) simp

lemma except_branch_abort:
  assumes "10 \<le> repeated_error_count (stats self)"
  shows "except_branch self w =
     (self\<lparr>stats := (stats self)\<lparr>has_error := True,
         repeated_error_count := repeated_error_count (stats self) + 1, is_done := True\<rparr>\<rparr>,
      w, Break)"
  using assms unfolding except_branch_def Let_def by (subst penalty_iff) simp

lemma run_loop_failures:
  assumes "\<forall>f\<in>set fs. isl (response_result f)"
    and "\<not> is_paused (stats self)" "\<not> is_done (stats self)"
    and "0 \<le> repeated_error_count (stats self)"
    and "repeated_error_count (stats self) + int (length fs) \<le> 10"
  shows "run_loop L (fs @ rest) self w =
     run_loop L rest
       (self\<lparr>stats := (stats self)\<lparr>has_error := has_error (stats self) \<or> fs \<noteq> [],
           repeated_error_count := repeated_error_count (stats self) + int (length fs)\<rparr>\<rparr>)
       (w\<lparr>slept := slept w @ [repeated_error_count (stats self) + 1 ..
                                 repeated_error_count (stats self) + int (length fs)],
          requests := requests w @ replicate (length fs) (GetPage (url self) (current_date self))\<rparr>)"
  using assms
proof (induction fs arbitrary: self w)
  case Nil
  then show ?case by simp
next
  case (Cons f fs)
  obtain e where e: "response_result f = Inl e"
    using Cons.prems(1) by (cases "response_result f") auto
  let ?c = "repeated_error_count (stats self)"
  let ?self1 = "self\<lparr>stats := (stats self)\<lparr>has_error := True, repeated_error_count := ?c + 1\<rparr>\<rparr>"
  let ?wa = "w\<lparr>requests := requests w @ [GetPage (url self) (current_date self)]\<rparr>"
  let ?w1 = "?wa\<lparr>slept := slept ?wa @ [?c + 1]\<rparr>"
  have lt: "?c < 10" using Cons.prems by simp
  have body: "loop_body L f self w = (?self1, ?w1, Continue)"
    using Cons.prems lt by (simp add: loop_body_failure [OF e] except_branch_retry)
  have step: "run_loop L ((f # fs) @ rest) self w = run_loop L (fs @ rest) ?self1 ?w1"
    using Cons.prems body by simp
  have ih: "run_loop L (fs @ rest) ?self1 ?w1 =
     run_loop L rest
       (?self1\<lparr>stats := (stats ?self1)\<lparr>has_error := has_error (stats ?self1) \<or> fs \<noteq> [],
           repeated_error_count := repeated_error_count (stats ?self1) + int (length fs)\<rparr>\<rparr>)
       (?w1\<lparr>slept := slept ?w1 @ [repeated_error_count (stats ?self1) + 1 ..
                                 repeated_error_count (stats ?self1) + int (length fs)],
          requests := requests ?w1 @ replicate (length fs) (GetPage (url ?self1) (current_date ?self1))\<rparr>)"
    using Cons.prems by (intro Cons.IH) simp_all
  have up: "[?c + 1 .. ?c + int (length (f # fs))] = (?c + 1) # [?c + 1 + 1 .. ?c + 1 + int (length fs)]"
    by (subst upto_rec1) (simp_all add: add.assoc)
  show ?case
    unfolding step ih up by (simp add: replicate_append_same add.assoc)
qed


lemma replicate_eleven: "replicate 11 x = replicate 10 x @ [x]"
  using replicate_add [of 10 1 x] by simp

lemma eleven_failures_abort:
  assumes len: "length fs = 11"
    and fails: "\<forall>f\<in>set fs. isl (response_result f)"
    and zero: "repeated_error_count (stats self) = 0"
    and live: "\<not> is_paused (stats self)" "\<not> is_done (stats self)"
  shows "run_loop L (fs @ rest) self w =
     (self\<lparr>stats := (stats self)\<lparr>has_error := True, repeated_error_count := 11, is_done := True\<rparr>\<rparr>,
      w\<lparr>slept := slept w @ [1..10],
        requests := requests w @ replicate 11 (GetPage (url self) (current_date self))\<rparr>,
      rest)"
proof -
  obtain gs g where fs: "fs = gs @ [g]" and gs: "length gs = 10"
    using len by (cases fs rule: rev_cases) auto
  have g: "isl (response_result g)" and gsf: "\<forall>f\<in>set gs. isl (response_result f)"
    using fails fs by auto
  obtain e where e: "response_result g = Inl e"
    using g by (cases "response_result g") auto
  let ?self10 = "self\<lparr>stats := (stats self)\<lparr>has_error := True, repeated_error_count := 10\<rparr>\<rparr>"
  let ?w10 = "w\<lparr>slept := slept w @ [1..10],
        requests := requests w @ replicate 10 (GetPage (url self) (current_date self))\<rparr>"
  have ne: "(gs \<noteq> []) = True"
    using gs by auto
  have "run_loop L (gs @ (g # rest)) self w = run_loop L (g # rest) ?self10 ?w10"
    using run_loop_failures [OF gsf live, where rest = "g # rest" and L = L and w = w] zero gs
    by (simp add: ne del: run_loop.simps)
  also have "\<dots> =
     (self\<lparr>stats := (stats self)\<lparr>has_error := True, repeated_error_count := 11, is_done := True\<rparr>\<rparr>,
      w\<lparr>slept := slept w @ [1..10],
        requests := requests w @ replicate 11 (GetPage (url self) (current_date self))\<rparr>,
      rest)"
    using live by (simp add: loop_body_failure [OF e] except_branch_abort replicate_eleven)
  finally show ?thesis using fs by simp
qed

lemma loop_body_on_failure:
  assumes "isl (response_result r)"
  shows "loop_body L r self w =
     (let n = repeated_error_count (stats self) + 1;
          w1 = w\<lparr>requests := requests w @ [GetPage (url self) (current_date self)]\<rparr>
      in if (1 / 2) * of_int (n\<^sup>2) > (60 :: rat)
         then (self\<lparr>stats := (stats self)\<lparr>has_error := True, repeated_error_count := n, is_done := True\<rparr>\<rparr>,
               w1, Break)
         else (self\<lparr>stats := (stats self)\<lparr>has_error := True, repeated_error_count := n\<rparr>\<rparr>,
               w1\<lparr>slept := slept w1 @ [n]\<rparr>, Continue))"
proof -
  obtain e where e: "response_result r = Inl e"
    using assms by (cases "response_result r") auto
  show ?thesis
    by (simp add: loop_body_failure [OF e] except_branch_def Let_def)
qed

section \<open>The cursor\<close>

text \<open>
  Claim C1, as amended. After a successful fetch of a page that is not empty, when the
  derived timestamp of the last item (\<open>created_utc * 1000\<close>) equals the cursor, the new
  cursor is the old cursor plus 1000 milliseconds: line 104 adds \<open>1000\<close>, one second, the
  resolution of \<open>created_utc\<close>. This holds whether or not the date conversion that
  follows raises.
\<close>

theorem tie_break_adds_1000:
  assumes "response_result r = Inr data" "data \<noteq> []"
    and "derived_timestamp (last data) = current_date self"
  shows "current_date (fst (loop_body L r self w)) = current_date self + 1000"
  using assms by (simp add: loop_body_page Let_def next_cursor_def except_branch_cursor)

theorem tie_break_adds_1000_witness:
  "current_date (fst (loop_body example_lib (page_response [item_at 5, item_at 5]) posts_at_5000 empty_world)) = 6000"
  using tie_break_adds_1000 [of "page_response [item_at 5, item_at 5]" "[item_at 5, item_at 5]" posts_at_5000
      example_lib empty_world]
  by (simp add: example_defs response_result_def derived_timestamp_def)

text \<open>
  Claim C1 as stated fails: with the cursor at 5000 and a page of two items whose derived
  timestamp is 5000, the new cursor is 6000 and not 5001.
\<close>

theorem tie_break_not_one_millisecond:
  "response_result (page_response [item_at 5, item_at 5]) = Inr [item_at 5, item_at 5]
   \<and> derived_timestamp (last [item_at 5, item_at 5]) = current_date posts_at_5000
   \<and> current_date (fst (loop_body example_lib (page_response [item_at 5, item_at 5]) posts_at_5000 empty_world))
       \<noteq> current_date posts_at_5000 + 1"
  by (simp add: example_defs model_defs)

text \<open>
  Claim C5, as amended. After a successful fetch the cursor has not decreased, provided
  the last item of a page that is not empty has a derived timestamp at or after the cursor
  (what the API is asked for with \<open>sort=asc\<close> and \<open>after\<close>; the code does not check it).
  An empty page leaves the cursor as it is.
\<close>

theorem cursor_never_decreases:
  assumes "response_result r = Inr data"
    and "data \<noteq> [] \<longrightarrow> current_date self \<le> derived_timestamp (last data)"
  shows "current_date self \<le> current_date (fst (loop_body L r self w))"
proof (cases "data = []")
  case True
  then show ?thesis using assms by (simp add: loop_body_empty)
next
  case False
  then show ?thesis using assms
    by (simp add: loop_body_page Let_def next_cursor_def except_branch_cursor)
qed

theorem cursor_never_decreases_witness:
  "current_date posts_at_5000
     \<le> current_date (fst (loop_body example_lib (page_response [item_at 6, item_at 7]) posts_at_5000 empty_world))"
  using cursor_never_decreases [of "page_response [item_at 6, item_at 7]" "[item_at 6, item_at 7]" posts_at_5000
      example_lib empty_world]
  by (simp add: example_defs response_result_def derived_timestamp_def)

text \<open>
  Claim C5 as stated fails: with the cursor at 5000, a page whose last item was created at
  second 1 moves the cursor back to 1000.
\<close>

theorem cursor_can_decrease:
  "response_result (page_response [item_at 1]) = Inr [item_at 1]
   \<and> current_date (fst (loop_body example_lib (page_response [item_at 1]) posts_at_5000 empty_world)) = 1000
   \<and> \<not> current_date posts_at_5000
         \<le> current_date (fst (loop_body example_lib (page_response [item_at 1]) posts_at_5000 empty_world))"
  by (simp add: example_defs model_defs)

section \<open>Failures and backoff\<close>

text \<open>
  Claim C4. A fetch that raises increments the counter to \<open>n\<close> and sets the error flag;
  when \<open>0.5 * n^2 > 60\<close> the stream is marked done and the loop is left without sleeping,
  otherwise the loop sleeps \<open>n\<close> seconds and goes on. The test is false for \<open>n\<close> from 1
  to 10 and true for 11. So eleven failed fetches in a row, from a counter at zero, sleep
  1, 2, ..., 10 seconds (55 in all) and end the run with the stream done and in error,
  leaving the responses that follow unused.
\<close>

theorem backoff_policy:
  "(isl (response_result r) \<longrightarrow>
      loop_body L r self w =
       (let n = repeated_error_count (stats self) + 1;
            w1 = w\<lparr>requests := requests w @ [GetPage (url self) (current_date self)]\<rparr>
        in if (1 / 2) * of_int (n\<^sup>2) > (60 :: rat)
           then (self\<lparr>stats := (stats self)\<lparr>has_error := True, repeated_error_count := n, is_done := True\<rparr>\<rparr>,
                 w1, Break)
           else (self\<lparr>stats := (stats self)\<lparr>has_error := True, repeated_error_count := n\<rparr>\<rparr>,
                 w1\<lparr>slept := slept w1 @ [n]\<rparr>, Continue)))
   \<and> (\<forall>n::int. 1 \<le> n \<and> n \<le> 10 \<longrightarrow> \<not> (1 / 2) * of_int (n\<^sup>2) > (60 :: rat))
   \<and> (1 / 2) * of_int ((11::int)\<^sup>2) > (60 :: rat)
   \<and> (length fs = 11 \<and> (\<forall>f\<in>set fs. isl (response_result f)) \<and>
        repeated_error_count (stats s0) = 0 \<and> \<not> is_paused (stats s0) \<and> \<not> is_done (stats s0) \<longrightarrow>
        run L (fs @ rest) s0 w0 =
          Some (s0\<lparr>stats := (stats s0)\<lparr>has_error := True, repeated_error_count := 11, is_done := True\<rparr>\<rparr>,
                w0\<lparr>slept := slept w0 @ [1..10],
                   requests := requests w0 @ replicate 11 (GetPage (url s0) (current_date s0))\<rparr>,
                rest)
        \<and> sum_list [1..10] = (55::int))"
proof (intro conjI impI allI)
  assume "isl (response_result r)"
  then show "loop_body L r self w =
       (let n = repeated_error_count (stats self) + 1;
            w1 = w\<lparr>requests := requests w @ [GetPage (url self) (current_date self)]\<rparr>
        in if (1 / 2) * of_int (n\<^sup>2) > (60 :: rat)
           then (self\<lparr>stats := (stats self)\<lparr>has_error := True, repeated_error_count := n, is_done := True\<rparr>\<rparr>,
                 w1, Break)
           else (self\<lparr>stats := (stats self)\<lparr>has_error := True, repeated_error_count := n\<rparr>\<rparr>,
                 w1\<lparr>slept := slept w1 @ [n]\<rparr>, Continue))"
    by (rule loop_body_on_failure)
next
  fix n :: int
  assume "1 \<le> n \<and> n \<le> 10"
  then show "\<not> (1 / 2) * of_int (n\<^sup>2) > (60 :: rat)"
    by (subst penalty_iff) simp
next
  show "(1 / 2) * of_int ((11::int)\<^sup>2) > (60 :: rat)"
    by (subst penalty_iff) simp
next
  assume h: "length fs = 11 \<and> (\<forall>f\<in>set fs. isl (response_result f)) \<and>
        repeated_error_count (stats s0) = 0 \<and> \<not> is_paused (stats s0) \<and> \<not> is_done (stats s0)"
  then show "run L (fs @ rest) s0 w0 =
          Some (s0\<lparr>stats := (stats s0)\<lparr>has_error := True, repeated_error_count := 11, is_done := True\<rparr>\<rparr>,
                w0\<lparr>slept := slept w0 @ [1..10],
                   requests := requests w0 @ replicate 11 (GetPage (url s0) (current_date s0))\<rparr>,
                rest)"
    by (simp add: run_def eleven_failures_abort)
next
  show "sum_list [1..10] = (55::int)"
    by (simp add: upto_rec1)
qed

theorem backoff_policy_witness:
  "loop_body example_lib failed_response posts_at_5000 empty_world =
     (posts_at_5000\<lparr>stats := DownloadStats_init\<lparr>has_error := True, repeated_error_count := 1\<rparr>\<rparr>,
      \<lparr>files = Map.empty, slept = [1], requests = [GetPage ''posts?subreddit=xy'' 5000]\<rparr>, Continue)
   \<and> run example_lib (replicate 11 failed_response @ [page_response []]) posts_at_5000 empty_world =
     Some (posts_at_5000\<lparr>stats := DownloadStats_init\<lparr>has_error := True, repeated_error_count := 11, is_done := True\<rparr>\<rparr>,
           \<lparr>files = Map.empty, slept = [1..10],
            requests = replicate 11 (GetPage ''posts?subreddit=xy'' 5000)\<rparr>,
           [page_response []])"
  using backoff_policy [of failed_response example_lib posts_at_5000 empty_world
      "replicate 11 failed_response" posts_at_5000 "[page_response []]" empty_world]
  by (simp add: example_defs response_result_def)

section \<open>The empty page\<close>

text \<open>
  Claim C2, evaluated. One failed fetch and then a successful fetch of an empty page: the
  run ends with the stream done, the error flag still set and the counter still 1. Lines
  94 to 97 leave the loop before the reset of lines 115 to 118.
\<close>

theorem empty_page_after_failure_keeps_error:
  "run example_lib [failed_response, page_response []] posts_at_5000 empty_world =
     Some (posts_at_5000\<lparr>stats := DownloadStats_init\<lparr>repeated_error_count := 1, is_done := True, has_error := True\<rparr>\<rparr>,
           \<lparr>files = Map.empty, slept = [1],
            requests = [GetPage ''posts?subreddit=xy'' 5000, GetPage ''posts?subreddit=xy'' 5000]\<rparr>, [])"
  by (simp add: example_defs model_defs)

text \<open>
  Claim C3, evaluated. The iteration that receives an empty page, in a stream whose
  counter is 3 and whose error flag is set, changes neither.
\<close>

theorem empty_page_resets_nothing:
  "response_result (page_response []) = Inr []
   \<and> stats (fst (loop_body example_lib (page_response [])
        (posts_at_5000\<lparr>stats := DownloadStats_init\<lparr>repeated_error_count := 3, has_error := True\<rparr>\<rparr>) empty_world))
      = DownloadStats_init\<lparr>repeated_error_count := 3, has_error := True, is_done := True\<rparr>"
  by (simp add: example_defs model_defs)

section \<open>The sink\<close>

lemma split_lines_line:
  "CHR 0x0A \<notin> set l \<Longrightarrow> split_lines acc (l @ CHR 0x0A # cs) = (acc @ l) # split_lines [] cs"
  by (induction l arbitrary: acc) auto

lemma read_lines_write_items:
  assumes "\<forall>it\<in>set xs. CHR 0x0A \<notin> set (dumps L it)"
  shows "read_lines (write_items L xs) = map (dumps L) xs"
  using assms unfolding read_lines_def write_items_def
  by (induction xs) (simp_all add: split_lines_line)

lemma write_items_append: "write_items L (xs @ ys) = write_items L xs @ write_items L ys"
  by (simp add: write_items_def)

lemma except_branch_frame:
  assumes "except_branch self w = (self', w', fl)"
  shows "files w' = files w \<and> total_items (stats self') = total_items (stats self)
     \<and> output_file self' = output_file self \<and> current_date self' = current_date self"
  using assms by (auto simp: except_branch_def Let_def split: if_splits)

lemma loop_body_sink:
  assumes ok: "page_of r = [] \<or> fromtimestamp_ok L (next_cursor (current_date self) (page_of r))"
    and op: "files w (output_file self) = Some old"
    and body: "loop_body L r self w = (self', w', fl)"
  shows "files w' (output_file self) = Some (old @ write_items L (page_of r))
     \<and> total_items (stats self') = total_items (stats self) + int (length (page_of r))
     \<and> output_file self' = output_file self"
proof (cases "response_result r")
  case (Inl e)
  then have "except_branch self (w\<lparr>requests := requests w @ [GetPage (url self) (current_date self)]\<rparr>)
      = (self', w', fl)"
    using body by (simp add: loop_body_failure)
  from except_branch_frame [OF this] Inl op show ?thesis
    by (simp add: page_of_def write_items_def)
next
  case (Inr data)
  show ?thesis
  proof (cases "data = []")
    case True
    then show ?thesis using Inr body op
      by (auto simp: loop_body_empty page_of_def write_items_def)
  next
    case False
    have p: "page_of r = data" using Inr by (simp add: page_of_def)
    have okn: "fromtimestamp_ok L (next_cursor (current_date self) data)"
      using ok False p by simp
    show ?thesis using body op okn
      by (auto simp: loop_body_page [OF Inr False] Let_def p write_file_def)
  qed
qed

lemma run_loop_sink:
  assumes "conversions_return L rs self w"
    and "files w (output_file self) = Some old"
    and "run_loop L rs self w = (self', w', rest)"
  shows "\<exists>pre. rs = pre @ rest
     \<and> files w' (output_file self) = Some (old @ write_items L (concat (map page_of pre)))
     \<and> total_items (stats self') = total_items (stats self) + int (length (concat (map page_of pre)))
     \<and> output_file self' = output_file self"
  using assms
proof (induction rs arbitrary: self w old)
  case Nil
  then show ?case by (simp add: write_items_def)
next
  case (Cons r rs)
  show ?case
  proof (cases "is_paused (stats self) \<or> is_done (stats self)")
    case True
    then have "self' = self" "w' = w" "rest = r # rs"
      using Cons.prems(3) by auto
    then show ?thesis using Cons.prems(2) by (simp add: write_items_def)
  next
    case False
    obtain s1 w1 fl where body: "loop_body L r self w = (s1, w1, fl)"
      by (cases "loop_body L r self w") auto
    have okr: "page_of r = [] \<or> fromtimestamp_ok L (next_cursor (current_date self) (page_of r))"
      using Cons.prems(1) False by simp
    note step = loop_body_sink [OF okr Cons.prems(2) body]
    show ?thesis
    proof (cases fl)
      case Break
      then have "self' = s1" "w' = w1" "rest = rs"
        using Cons.prems(3) False body by auto
      then show ?thesis using step
        by (intro exI [of _ "[r]"]) simp
    next
      case Continue
      then have run: "run_loop L rs s1 w1 = (self', w', rest)"
        using Cons.prems(3) False body by auto
      have okrs: "conversions_return L rs s1 w1"
        using Cons.prems(1) False body Continue by simp
      have op1: "files w1 (output_file s1) = Some (old @ write_items L (page_of r))"
        using step by simp
      from Cons.IH [OF okrs op1 run] obtain pre where pre: "rs = pre @ rest"
        "files w' (output_file s1) = Some ((old @ write_items L (page_of r)) @ write_items L (concat (map page_of pre)))"
        "total_items (stats self') = total_items (stats s1) + int (length (concat (map page_of pre)))"
        "output_file self' = output_file s1"
        by blast
      then show ?thesis using step
        by (intro exI [of _ "r # pre"]) (simp add: write_items_append)
    qed
  qed
qed

text \<open>
  Where no date conversion raises, the loop keeps the sink in step with the fetches. Take
  the loop at any point of a run: it started on a sink that was open and held \<open>old\<close>, and
  it has used up the responses \<open>consumed\<close>. Then the sink holds \<open>old\<close> followed by the
  items of all the pages fetched so far, each serialized and followed by a newline, in the
  order received. If no serialized item contains a newline (\<open>json.dumps\<close> escapes them),
  reading the written text back gives one line per item, so the number of records written
  is the sum of the page sizes; it is also what \<open>total_items\<close> has grown by.
\<close>

lemma sink_holds_fetched_items:
  assumes "conversions_return L rs self w"
    and "\<forall>it\<in>set (concat (map page_of rs)). CHR 0x0A \<notin> set (dumps L it)"
    and "files w (output_file self) = Some old"
    and "run_loop L rs self w = (self', w', rest)"
  shows "let consumed = take (length rs - length rest) rs;
             items = concat (map page_of consumed)
         in files w' (output_file self) = Some (old @ write_items L items)
          \<and> read_lines (write_items L items) = map (dumps L) items
          \<and> length (read_lines (write_items L items)) = sum_list (map length (map page_of consumed))
          \<and> total_items (stats self') = total_items (stats self) + int (length items)"
proof -
  from run_loop_sink [OF assms(1,3,4)] obtain pre where pre: "rs = pre @ rest"
    and f: "files w' (output_file self) = Some (old @ write_items L (concat (map page_of pre)))"
    and t: "total_items (stats self') = total_items (stats self) + int (length (concat (map page_of pre)))"
    by blast
  have c: "take (length rs - length rest) rs = pre"
    using pre by simp
  have nl: "\<forall>it\<in>set (concat (map page_of pre)). CHR 0x0A \<notin> set (dumps L it)"
    using assms(2) pre by auto
  have rd: "read_lines (write_items L (concat (map page_of pre))) = map (dumps L) (concat (map page_of pre))"
    by (rule read_lines_write_items [OF nl])
  have len: "length (concat (map page_of pre)) = sum_list (map length (map page_of pre))"
    by (simp add: length_concat)
  show ?thesis
    unfolding c Let_def using f t rd len by simp
qed

lemma three_run:
  "run_loop example_lib three_responses posts_at_5000 open_world =
     (posts_at_5000\<lparr>current_date := 8000,
        stats := DownloadStats_init\<lparr>total_items := 3, stats_current_date := Some 8000\<rparr>\<rparr>,
      \<lparr>files = [''r_xy_posts.jsonl'' \<mapsto> ''id=x;'' @ [CHR 0x0A] @ ''id=x;'' @ [CHR 0x0A] @ ''id=x;'' @ [CHR 0x0A]],
       slept = [1],
       requests = [GetPage ''posts?subreddit=xy'' 5000, GetPage ''posts?subreddit=xy'' 7000,
                   GetPage ''posts?subreddit=xy'' 7000]\<rparr>,
      [])"
  by (simp add: three_responses_def open_world_def example_defs model_defs)

lemma sink_holds_fetched_items_example:
  "files (fst (snd (run_loop example_lib three_responses posts_at_5000 open_world))) ''r_xy_posts.jsonl''
      = Some (write_items example_lib [item_at 6, item_at 7, item_at 8])
   \<and> read_lines (write_items example_lib [item_at 6, item_at 7, item_at 8]) = [''id=x;'', ''id=x;'', ''id=x;'']
   \<and> length (read_lines (write_items example_lib [item_at 6, item_at 7, item_at 8])) = 3
   \<and> total_items (stats (fst (run_loop example_lib three_responses posts_at_5000 open_world))) = 3"
proof -
  have pages: "map page_of three_responses = [[item_at 6, item_at 7], [], [item_at 8]]"
    by (simp add: three_responses_def page_of_def response_result_def page_response_def
        failed_response_def)
  have h1: "conversions_return example_lib three_responses posts_at_5000 open_world"
    by (simp add: three_responses_def open_world_def page_of_def next_cursor_def example_defs model_defs)
  have h2: "\<forall>it\<in>set (concat (map page_of three_responses)). CHR 0x0A \<notin> set (dumps example_lib it)"
    unfolding pages by (simp add: example_defs)
  have h3: "files open_world (output_file posts_at_5000) = Some []"
    by (simp add: open_world_def example_defs)
  have tk: "take (length three_responses - length ([]::response list)) three_responses = three_responses"
    by simp
  have path: "output_file posts_at_5000 = ''r_xy_posts.jsonl''"
    and tot: "total_items (stats posts_at_5000) = 0"
    and d: "\<And>t. dumps example_lib (item_at t) = ''id=x;''"
    by (simp_all add: example_defs)
  note th = sink_holds_fetched_items [OF h1 h2 h3 three_run, unfolded Let_def tk pages]
  show ?thesis
    unfolding three_run using th by (simp add: path tot d)
qed

text \<open>
  Claim C6, evaluated. Lines 100 to 105 count the page in \<open>total_items\<close> and move the
  cursor before line 106 converts the date and lines 111 to 113 write. A page whose last
  item lies outside the range of \<open>datetime\<close> makes line 106 raise: the handler announces
  a retry, but the next request starts after the page, which is never written. In the
  first run below the pages come in ascending order: a page of one item is written, a page
  of two items is dropped, an empty page ends the run; the sink holds one record where the
  successful fetches delivered three, and \<open>total_items\<close> says 3. In the second run a page
  is written after a dropped one, and after that write the sink does not hold the items of
  all the successful fetches so far.
\<close>

theorem sink_misses_dropped_page:
  "map page_of drop_then_end = [[item_at 6], [item_at 7, far_item], []]
   \<and> run example_lib drop_then_end posts_at_5000 open_world =
       Some (posts_at_5000\<lparr>current_date := 1000000000000000000000,
               stats := DownloadStats_init\<lparr>total_items := 3, stats_current_date := Some 6000,
                 repeated_error_count := 1, is_done := True, has_error := True\<rparr>\<rparr>,
             \<lparr>files = [''r_xy_posts.jsonl'' \<mapsto> write_items example_lib [item_at 6]], slept = [1],
              requests = [GetPage ''posts?subreddit=xy'' 5000, GetPage ''posts?subreddit=xy'' 6000,
                          GetPage ''posts?subreddit=xy'' 1000000000000000000000]\<rparr>,
             [])
   \<and> length (read_lines (write_items example_lib [item_at 6])) = 1
   \<and> sum_list (map length (map page_of drop_then_end)) = 3
   \<and> map page_of two_pages = [[far_item], [item_at 5]]
   \<and> snd (snd (run_loop example_lib two_pages posts_at_5000 open_world)) = []
   \<and> files (fst (snd (run_loop example_lib two_pages posts_at_5000 open_world))) ''r_xy_posts.jsonl''
        = Some (write_items example_lib [item_at 5])
   \<and> files (fst (snd (run_loop example_lib two_pages posts_at_5000 open_world))) ''r_xy_posts.jsonl''
        \<noteq> Some (write_items example_lib (concat (map page_of two_pages)))"
  by (simp add: drop_then_end_def two_pages_def far_item_def open_world_def page_of_def read_lines_def
      example_defs model_defs)

section \<open>Opening the sink\<close>

text \<open>
  The loop never reads the sink and never reads \<open>append_mode\<close>: a run on a file that
  holds \<open>x\<close> in front of what another file holds writes the same text after it.
\<close>

lemma except_branch_prepend:
  "except_branch self (prepend_text p x w) =
     (case except_branch self w of (s', w', fl) \<Rightarrow> (s', prepend_text p x w', fl))"
  by (simp add: except_branch_def Let_def prepend_text_def file_text_def)

lemma prepend_text_fields:
  "(prepend_text p x w)\<lparr>requests := v\<rparr> = prepend_text p x (w\<lparr>requests := v\<rparr>)"
  "(prepend_text p x w)\<lparr>slept := u\<rparr> = prepend_text p x (w\<lparr>slept := u\<rparr>)"
  "requests (prepend_text p x w) = requests w"
  "slept (prepend_text p x w) = slept w"
  "(prepend_text p x w)\<lparr>files := write_file p t (files (prepend_text p x w))\<rparr>
     = prepend_text p x (w\<lparr>files := write_file p t (files w)\<rparr>)"
  by (simp_all add: prepend_text_def file_text_def write_file_def)

lemma loop_body_prepend:
  assumes "output_file self = p"
  shows "loop_body L r self (prepend_text p x w) =
     (case loop_body L r self w of (s', w', fl) \<Rightarrow> (s', prepend_text p x w', fl))"
proof (cases "response_result r")
  case (Inl e)
  then show ?thesis
    by (simp add: loop_body_failure prepend_text_fields except_branch_prepend)
next
  case (Inr data)
  show ?thesis
  proof (cases "data = []")
    case True
    then show ?thesis using Inr
      by (simp add: loop_body_empty prepend_text_fields)
  next
    case False
    show ?thesis
      using assms
      by (simp add: loop_body_page [OF Inr False] Let_def prepend_text_fields except_branch_prepend)
  qed
qed

lemma loop_body_output_file: "output_file (fst (loop_body L r self w)) = output_file self"
  by (auto simp: loop_body_def fetch_data_def except_branch_def Let_def split: sum.splits)

lemma run_loop_prepend:
  assumes "output_file self = p"
  shows "run_loop L rs self (prepend_text p x w) =
     (case run_loop L rs self w of (s', w', rest) \<Rightarrow> (s', prepend_text p x w', rest))"
  using assms
proof (induction rs arbitrary: self w)
  case Nil
  then show ?case by simp
next
  case (Cons r rs)
  obtain s1 w1 fl where body: "loop_body L r self w = (s1, w1, fl)"
    by (cases "loop_body L r self w") auto
  have out: "output_file s1 = p"
    using loop_body_output_file [of L r self w] body Cons.prems by simp
  show ?case
    using Cons.IH [OF out] body
    by (cases fl) (simp_all add: loop_body_prepend [OF Cons.prems])
qed


lemma except_branch_append_mode:
  "except_branch (self\<lparr>append_mode := b\<rparr>) w =
     (case except_branch self w of (s', w', fl) \<Rightarrow> (s'\<lparr>append_mode := b\<rparr>, w', fl))"
  by (simp add: except_branch_def Let_def)

lemma loop_body_append_mode:
  "loop_body L r (self\<lparr>append_mode := b\<rparr>) w =
     (case loop_body L r self w of (s', w', fl) \<Rightarrow> (s'\<lparr>append_mode := b\<rparr>, w', fl))"
  by (cases self)
    (auto simp: loop_body_def fetch_data_def except_branch_def Let_def split: sum.splits)

lemma run_loop_append_mode:
  "run_loop L rs (self\<lparr>append_mode := b\<rparr>) w =
     (case run_loop L rs self w of (s', w', rest) \<Rightarrow> (s'\<lparr>append_mode := b\<rparr>, w', rest))"
proof (induction rs arbitrary: self w)
  case Nil
  then show ?case by simp
next
  case (Cons r rs)
  obtain s1 w1 fl where body: "loop_body L r self w = (s1, w1, fl)"
    by (cases "loop_body L r self w") auto
  show ?case
    using Cons.IH [of s1 w1] body
    by (cases fl) (simp_all add: loop_body_append_mode)
qed

lemma loop_body_file_stays:
  assumes "files w q = Some c"
  shows "\<exists>c'. files (fst (snd (loop_body L r self w))) q = Some c'"
  using assms
  by (auto simp: loop_body_def fetch_data_def except_branch_def write_file_def Let_def split: sum.splits)

lemma run_loop_file_stays:
  assumes "files w q = Some c"
  shows "\<exists>c'. files (fst (snd (run_loop L rs self w))) q = Some c'"
  using assms
proof (induction rs arbitrary: self w c)
  case Nil
  then show ?case by simp
next
  case (Cons r rs)
  obtain s1 w1 fl where body: "loop_body L r self w = (s1, w1, fl)"
    by (cases "loop_body L r self w") auto
  from loop_body_file_stays [OF Cons.prems, of L r self] body
  obtain c1 where c1: "files w1 q = Some c1" by auto
  from Cons.IH [OF c1] Cons.prems body c1 show ?case
    by (cases fl) auto
qed

text \<open>
  Claim C7. Let the sink hold \<open>old\<close> when a stream is started, and let the run started
  with \<open>append = False\<close> end with the sink holding \<open>written\<close>: the file was emptied when
  it was opened, so \<open>written\<close> is what this run wrote and nothing of \<open>old\<close> is left.
  Then the run started with \<open>append = True\<close>, on the same responses, ends too, and its
  sink holds \<open>old\<close> followed by \<open>written\<close>.
\<close>

theorem append_keeps_truncate_empties:
  assumes old: "files w (output_file self) = Some old"
    and tr: "start L rs (self\<lparr>append_mode := False\<rparr>) w = Some (st, wt, rest)"
  shows "\<exists>written. files wt (output_file self) = Some written
     \<and> (\<exists>sa wa. start L rs (self\<lparr>append_mode := True\<rparr>) w = Some (sa, wa, rest)
           \<and> files wa (output_file self) = Some (old @ written))"
proof -
  let ?p = "output_file self"
  let ?s0 = "self\<lparr>stats := (stats self)\<lparr>is_paused := False\<rparr>\<rparr>"
  let ?wa = "w\<lparr>files := (files w)(?p \<mapsto> [])\<rparr>"
  obtain s' w' rest' where rl: "run_loop L rs ?s0 ?wa = (s', w', rest')"
    by (cases "run_loop L rs ?s0 ?wa") auto
  have w: "prepend_text ?p old ?wa = w"
    using old by (simp add: prepend_text_def file_text_def fun_upd_idem)
  have tr': "run L rs (?s0\<lparr>append_mode := False\<rparr>) ?wa = Some (st, wt, rest)"
    using tr by (cases self) (simp add: start_def open_file_def)
  then have fin: "is_paused (stats s') \<or> is_done (stats s')" and eqs: "wt = w'" "rest = rest'"
    using rl by (auto simp: run_def run_loop_append_mode split: if_splits)
  from run_loop_file_stays [of ?wa ?p "[]" L rs ?s0] rl
  obtain written where written: "files w' ?p = Some written" by auto
  have "start L rs (self\<lparr>append_mode := True\<rparr>) w = run L rs (?s0\<lparr>append_mode := True\<rparr>) (prepend_text ?p old ?wa)"
    using old w by (cases self) (simp add: start_def open_file_def)
  also have "\<dots> = Some (s'\<lparr>append_mode := True\<rparr>, prepend_text ?p old w', rest')"
    using rl fin by (simp add: run_def run_loop_append_mode run_loop_prepend)
  finally have ap: "start L rs (self\<lparr>append_mode := True\<rparr>) w
      = Some (s'\<lparr>append_mode := True\<rparr>, prepend_text ?p old w', rest)"
    using eqs by simp
  have "files (prepend_text ?p old w') ?p = Some (old @ written)"
    using written by (simp add: prepend_text_def file_text_def)
  with ap written eqs show ?thesis by blast
qed

lemma truncating_start:
  "start example_lib one_page_then_empty (posts_at_5000\<lparr>append_mode := False\<rparr>) old_world =
     Some (posts_at_5000\<lparr>current_date := 6000,
             stats := DownloadStats_init\<lparr>total_items := 1, stats_current_date := Some 6000, is_done := True\<rparr>\<rparr>,
           \<lparr>files = [''r_xy_posts.jsonl'' \<mapsto> ''id=x;'' @ [CHR 0x0A]], slept = [],
            requests = [GetPage ''posts?subreddit=xy'' 5000, GetPage ''posts?subreddit=xy'' 6000]\<rparr>,
           [])"
  by (simp add: one_page_then_empty_def old_world_def start_def open_file_def example_defs model_defs)

theorem append_keeps_truncate_empties_witness:
  "\<exists>sa wa. start example_lib one_page_then_empty (posts_at_5000\<lparr>append_mode := True\<rparr>) old_world
                = Some (sa, wa, [])
       \<and> files wa ''r_xy_posts.jsonl'' = Some (''id=old;'' @ [CHR 0x0A] @ ''id=x;'' @ [CHR 0x0A])"
proof -
  have path: "output_file posts_at_5000 = ''r_xy_posts.jsonl''"
    by (simp add: example_defs)
  have old: "files old_world (output_file posts_at_5000) = Some (''id=old;'' @ [CHR 0x0A])"
    by (simp add: old_world_def example_defs)
  show ?thesis
    using append_keeps_truncate_empties [OF old truncating_start] by (simp add: path)
qed

section \<open>The coordinator\<close>

text \<open>
  What a stream does with its responses does not depend on the world it runs in: the
  world only collects its writes, sleeps and requests.
\<close>

lemma loop_body_world_indep:
  "fst (loop_body L r self w) = fst (loop_body L r self w')
   \<and> snd (snd (loop_body L r self w)) = snd (snd (loop_body L r self w'))"
  by (auto simp: loop_body_def fetch_data_def except_branch_def Let_def split: sum.splits)

lemma run_loop_world_indep:
  "fst (run_loop L rs self w) = fst (run_loop L rs self w')
   \<and> snd (snd (run_loop L rs self w)) = snd (snd (run_loop L rs self w'))"
proof (induction rs arbitrary: self w w')
  case Nil
  then show ?case by simp
next
  case (Cons r rs)
  obtain s1 w1 fl where body: "loop_body L r self w = (s1, w1, fl)"
    by (cases "loop_body L r self w") auto
  obtain s2 w2 fl2 where body2: "loop_body L r self w' = (s2, w2, fl2)"
    by (cases "loop_body L r self w'") auto
  have same: "s2 = s1" "fl2 = fl"
    using loop_body_world_indep [of L r self w w'] body body2 by simp_all
  show ?case
    using Cons.IH [of s1 w1 w2] body body2 same
    by (cases fl) simp_all
qed

lemma start_world_indep:
  assumes "start L rs c w0 = Some (c', w0', rest)"
  shows "\<exists>w'. start L rs c w = Some (c', w', rest)"
proof -
  let ?c = "c\<lparr>stats := (stats c)\<lparr>is_paused := False\<rparr>\<rparr>"
  let ?wa = "w0\<lparr>files := open_file (output_file ?c) (append_mode ?c) (files w0)\<rparr>"
  let ?w = "w\<lparr>files := open_file (output_file ?c) (append_mode ?c) (files w)\<rparr>"
  obtain s1 w1 r1 where a: "run_loop L rs ?c ?wa = (s1, w1, r1)"
    by (cases "run_loop L rs ?c ?wa") auto
  obtain s2 w2 r2 where b: "run_loop L rs ?c ?w = (s2, w2, r2)"
    by (cases "run_loop L rs ?c ?w") auto
  have same: "s2 = s1" "r2 = r1"
    using run_loop_world_indep [of L rs ?c ?wa ?w] a b by simp_all
  have "s1 = c'" "r1 = rest" "is_paused (stats s1) \<or> is_done (stats s1)"
    using assms a by (auto simp: start_def run_def Let_def split: if_splits)
  then show ?thesis
    using b same by (auto simp: start_def run_def Let_def)
qed

lemma loop_body_requests:
  assumes "loop_body L r self w = (s', w', fl)"
  shows "requests w' = requests w @ [GetPage (url self) (current_date self)] \<and> url s' = url self"
  using assms
  by (auto simp: loop_body_def fetch_data_def except_branch_def Let_def split: sum.splits if_splits)

lemma run_loop_requests:
  assumes "run_loop L rs self w = (s', w', rest)"
  shows "\<exists>qs. requests w' = requests w @ qs \<and> requests_to (url self) qs"
  using assms
proof (induction rs arbitrary: self w)
  case Nil
  then show ?case by (simp add: requests_to_def)
next
  case (Cons r rs)
  show ?case
  proof (cases "is_paused (stats self) \<or> is_done (stats self)")
    case True
    then show ?thesis using Cons.prems by (auto simp: requests_to_def)
  next
    case False
    obtain s1 w1 fl where body: "loop_body L r self w = (s1, w1, fl)"
      by (cases "loop_body L r self w") auto
    note step = loop_body_requests [OF body]
    show ?thesis
    proof (cases fl)
      case Break
      then have "w' = w1" using Cons.prems False body by auto
      then show ?thesis using step
        by (intro exI [of _ "[GetPage (url self) (current_date self)]"]) (simp add: requests_to_def)
    next
      case Continue
      then have "run_loop L rs s1 w1 = (s', w', rest)"
        using Cons.prems False body by auto
      from Cons.IH [OF this] obtain qs where "requests w' = requests w1 @ qs" "requests_to (url s1) qs"
        by blast
      then show ?thesis using step
        by (intro exI [of _ "GetPage (url self) (current_date self) # qs"]) (simp add: requests_to_def)
    qed
  qed
qed

lemma start_requests:
  assumes "start L rs self w = Some (s', w', rest)"
  shows "\<exists>qs. requests w' = requests w @ qs \<and> requests_to (url self) qs"
proof -
  let ?s = "self\<lparr>stats := (stats self)\<lparr>is_paused := False\<rparr>\<rparr>"
  let ?wa = "w\<lparr>files := open_file (output_file ?s) (append_mode ?s) (files w)\<rparr>"
  have "run_loop L rs ?s ?wa = (s', w', rest)"
    using assms by (auto simp: start_def run_def Let_def split: prod.splits if_splits)
  from run_loop_requests [OF this] show ?thesis by simp
qed

text \<open>
  Claim C8. \<open>start\<close> has no outcome that is an exception: every error of a fetch is
  handled by \<open>except_branch\<close> inside the loop. So when the posts stream has run to a
  terminal state, whatever its flags (done with the error flag set after a backoff abort,
  for instance), the coordinator starts the comments stream on the responses that follow,
  and the comments stream ends in the very state it reaches when it is run alone on those
  responses, in any world. The two runs are in sequence: the requests of the coordinator
  are those of the posts stream followed by those of the comments stream.
\<close>

theorem comments_run_after_posts:
  assumes "start L rs p w = Some (p', w1, rs1)"
    and "start L rs1 c w0 = Some (c', w0', rs2)"
  shows "\<exists>w2 ps cs. combined_start L rs \<lparr>posts_stream = Some p, comments_stream = Some c\<rparr> w =
       Some (\<lparr>posts_stream = Some p', comments_stream = Some c'\<rparr>, w2, rs2)
     \<and> requests w2 = requests w @ ps @ cs
     \<and> requests_to (url p) ps \<and> requests_to (url c) cs"
proof -
  from start_world_indep [OF assms(2), of w1] obtain w2
    where c: "start L rs1 c w1 = Some (c', w2, rs2)" by blast
  from start_requests [OF assms(1)] obtain ps
    where ps: "requests w1 = requests w @ ps" "requests_to (url p) ps" by blast
  from start_requests [OF c] obtain cs
    where cs: "requests w2 = requests w1 @ cs" "requests_to (url c) cs" by blast
  have "combined_start L rs \<lparr>posts_stream = Some p, comments_stream = Some c\<rparr> w =
       Some (\<lparr>posts_stream = Some p', comments_stream = Some c'\<rparr>, w2, rs2)"
    using assms(1) c by (simp add: combined_start_def start_if_present_def)
  then show ?thesis using ps cs by auto
qed

lemma posts_abort:
  "start example_lib (replicate 11 failed_response @ one_page_then_empty) posts_at_5000 empty_world =
     Some (posts_at_5000\<lparr>stats := DownloadStats_init\<lparr>has_error := True, repeated_error_count := 11, is_done := True\<rparr>\<rparr>,
           \<lparr>files = [''r_xy_posts.jsonl'' \<mapsto> []], slept = [1..10],
            requests = replicate 11 (GetPage ''posts?subreddit=xy'' 5000)\<rparr>,
           one_page_then_empty)"
proof -
  let ?s = "posts_at_5000\<lparr>stats := (stats posts_at_5000)\<lparr>is_paused := False\<rparr>\<rparr>"
  have f: "\<forall>f\<in>set (replicate 11 failed_response). isl (response_result f)"
    by (simp add: failed_response_def response_result_def)
  have z: "repeated_error_count (stats ?s) = 0" "\<not> is_paused (stats ?s)" "\<not> is_done (stats ?s)"
    by (simp_all add: example_defs)
  note ab = eleven_failures_abort [OF _ f z, of example_lib one_page_then_empty, simplified]
  show ?thesis
    unfolding start_def run_def Let_def ab
    by (simp add: open_file_def example_defs)
qed

lemma comments_complete:
  "start example_lib one_page_then_empty comments_at_5000 empty_world =
     Some (comments_at_5000\<lparr>current_date := 6000,
             stats := DownloadStats_init\<lparr>total_items := 1, stats_current_date := Some 6000, is_done := True\<rparr>\<rparr>,
           \<lparr>files = [''r_xy_comments.jsonl'' \<mapsto> ''id=x;'' @ [CHR 0x0A]], slept = [],
            requests = [GetPage ''comments?subreddit=xy'' 5000, GetPage ''comments?subreddit=xy'' 6000]\<rparr>,
           [])"
  by (simp add: one_page_then_empty_def comments_at_5000_def start_def open_file_def example_defs model_defs)

theorem comments_run_after_posts_witness:
  "\<exists>w2 ps cs. combined_start example_lib (replicate 11 failed_response @ one_page_then_empty)
           \<lparr>posts_stream = Some posts_at_5000, comments_stream = Some comments_at_5000\<rparr> empty_world =
     Some (\<lparr>posts_stream = Some (posts_at_5000\<lparr>stats :=
               DownloadStats_init\<lparr>has_error := True, repeated_error_count := 11, is_done := True\<rparr>\<rparr>),
             comments_stream = Some (comments_at_5000\<lparr>current_date := 6000,
               stats := DownloadStats_init\<lparr>total_items := 1, stats_current_date := Some 6000, is_done := True\<rparr>\<rparr>)\<rparr>,
           w2, [])
     \<and> requests w2 = requests empty_world @ ps @ cs
     \<and> requests_to (url posts_at_5000) ps \<and> requests_to (url comments_at_5000) cs"
  by (rule comments_run_after_posts [OF posts_abort comments_complete])

section \<open>A response without data\<close>

text \<open>
  For a response with status 200 whose body has neither an \<open>error\<close> nor a \<open>data\<close>
  field, \<open>_fetch_data\<close> returns the empty list, and the iteration marks the stream done
  and leaves the loop. It is not handled as a failure: nothing is slept and no further
  request is made. But the iteration changes nothing else in the statistics either: the
  error flag and the counter keep the values they had.
\<close>

lemma missing_data_ends_stream:
  assumes "status_code r = 200" "json r = Some b" "error_field b = None" "data_field b = None"
  shows "fst (fetch_data self r w) = Inr []
     \<and> loop_body L r self w =
         (self\<lparr>stats := (stats self)\<lparr>is_done := True\<rparr>\<rparr>,
          w\<lparr>requests := requests w @ [GetPage (url self) (current_date self)]\<rparr>, Break)
     \<and> (\<not> is_paused (stats self) \<and> \<not> is_done (stats self) \<longrightarrow>
          run L (r # rest) self w =
            Some (self\<lparr>stats := (stats self)\<lparr>is_done := True\<rparr>\<rparr>,
                  w\<lparr>requests := requests w @ [GetPage (url self) (current_date self)]\<rparr>, rest))"
proof -
  have res: "response_result r = Inr []"
    using assms by (simp add: response_result_def)
  show ?thesis
    by (simp add: fetch_data_def res loop_body_empty run_def)
qed

lemma missing_data_on_fresh_stream:
  "fst (fetch_data posts_at_5000 bare_response empty_world) = Inr []
   \<and> run example_lib [bare_response, page_response [item_at 6]] posts_at_5000 empty_world =
       Some (posts_at_5000\<lparr>stats := DownloadStats_init\<lparr>is_done := True\<rparr>\<rparr>,
             \<lparr>files = Map.empty, slept = [], requests = [GetPage ''posts?subreddit=xy'' 5000]\<rparr>,
             [page_response [item_at 6]])"
  using missing_data_ends_stream [of bare_response "\<lparr>error_field = None, data_field = None\<rparr>"
      posts_at_5000 empty_world example_lib "[page_response [item_at 6]]"]
  by (simp add: bare_response_def example_defs)

text \<open>
  Claim C9, evaluated. One failed fetch and then a response with status 200 whose body has
  neither an \<open>error\<close> nor a \<open>data\<close> field: \<open>_fetch_data\<close> returns the empty list and the
  run ends with the stream done, but with the error flag still set and the counter still
  1, as after an empty page (claim C2): lines 94 to 97 leave the loop before the reset of
  lines 115 to 118.
\<close>

theorem missing_data_after_failure_keeps_error:
  "response_result bare_response = Inr []
   \<and> run example_lib [failed_response, bare_response] posts_at_5000 empty_world =
       Some (posts_at_5000\<lparr>stats := DownloadStats_init\<lparr>repeated_error_count := 1, is_done := True, has_error := True\<rparr>\<rparr>,
             \<lparr>files = Map.empty, slept = [1],
              requests = [GetPage ''posts?subreddit=xy'' 5000, GetPage ''posts?subreddit=xy'' 5000]\<rparr>, [])"
  by (simp add: bare_response_def example_defs model_defs)

section \<open>Validation of the name\<close>

text \<open>
  Claim C10. For a name of fewer than 2 characters \<open>validate_name\<close> raises
  \<open>ValueError\<close> and the world is unchanged: no request has been issued, whatever the
  API would have answered.
\<close>

theorem short_name_rejected_before_request:
  assumes "length name < 2"
  shows "validate_name iso_to_ms min_resp info_resp name download_type w =
     (Inl (ValueError ''Name must be at least 2 characters long''), w)"
  using assms by (simp add: validate_name_def)

theorem short_name_rejected_before_request_witness:
  "validate_name example_iso_to_ms example_min_response example_info_response ''x'' SUBREDDIT empty_world =
     (Inl (ValueError ''Name must be at least 2 characters long''), empty_world)
   \<and> requests empty_world = []"
  using short_name_rejected_before_request [of "''x''" example_iso_to_ms example_min_response
      example_info_response SUBREDDIT empty_world]
  by (simp add: empty_world_def)

text \<open>By contrast, a name of 2 characters sends both requests.\<close>

lemma long_name_requests:
  "validate_name example_iso_to_ms example_min_response example_info_response ''xy'' SUBREDDIT empty_world =
     (Inr (5000, [(''display_name'', ''x'')]),
      \<lparr>files = Map.empty, slept = [], requests = [GetMin SUBREDDIT ''xy'', GetInfo SUBREDDIT ''xy'']\<rparr>)"
  by (simp add: validate_name_def example_iso_to_ms_def example_min_response_def
      example_info_response_def empty_world_def Let_def)

end
